theory Spec2Isabelle
  imports Complex_Main "HOL-Library.Word"
begin

section \<open>Data model (types.ts)\<close>

text \<open>
  \<^verbatim>\<open>CountryFeature\<close> declares \<^verbatim>\<open>id: string | number\<close>, \<^verbatim>\<open>properties: { name: string }\<close>
  and \<^verbatim>\<open>geometry: any\<close>. The features come from the parsed topology through
  \<^verbatim>\<open>any\<close>-typed values, so the declaration is not enforced, and a feature of the dataset
  may lack the \<^verbatim>\<open>id\<close> property: reading it gives \<^verbatim>\<open>undefined\<close>. The identifier is
  therefore a tagged union with a third case. \<^verbatim>\<open>===\<close> on two identifiers is equality of
  tag and value, \<^verbatim>\<open>undefined === undefined\<close> included (parsed JSON holds no \<^verbatim>\<open>NaN\<close>, the
  one value that is not equal to itself). The geometry is opaque to the application code
  (only the d3 library reads it), so it is a type parameter.
\<close>

datatype ident = IdStr string | IdNum int | IdUndefined

record 'g CountryFeature =
  feature_id :: ident
  properties_name :: string
  geometry :: 'g

record 'g WarState =
  aggressor :: "'g CountryFeature option"
  defender :: "'g CountryFeature option"
  defenderAllies :: "'g CountryFeature list"

datatype LogType = INFO | WARNING | ERROR | AI | COMBAT

type_synonym LogLine = "string \<times> LogType"

section \<open>Selection handler (App.tsx)\<close>

text \<open>
  \<^verbatim>\<open>slot?.id\<close>: \<^verbatim>\<open>undefined\<close> on an empty slot, the feature's identifier otherwise; and
  \<^verbatim>\<open>slot?.id === country.id\<close>. On an empty slot the comparison is true exactly for a
  clicked feature that has no identifier.
\<close>

definition slot_id :: "'g CountryFeature option \<Rightarrow> ident" where
  "slot_id slot = (case slot of None \<Rightarrow> IdUndefined | Some f \<Rightarrow> feature_id f)"

definition slot_has_id :: "'g CountryFeature option \<Rightarrow> 'g CountryFeature \<Rightarrow> bool" where
  "slot_has_id slot country = (slot_id slot = feature_id country)"

text \<open>\<^verbatim>\<open>prev.defenderAllies.some(a => a.id === country.id)\<close>\<close>

definition is_ally :: "'g CountryFeature list \<Rightarrow> 'g CountryFeature \<Rightarrow> bool" where
  "is_ally allies country = list_ex (\<lambda>a. feature_id a = feature_id country) allies"

text \<open>
  The state updater passed to \<^verbatim>\<open>setWarState\<close> in \<^verbatim>\<open>handleCountrySelect\<close>. The closure
  variable \<^verbatim>\<open>isSelectingAlly\<close> is the first argument. The result is the next selection
  state, the next value of \<^verbatim>\<open>isSelectingAlly\<close> (only the successful ally branch calls
  \<^verbatim>\<open>setIsSelectingAlly(false)\<close>) and the line handed to \<^verbatim>\<open>addLog\<close>. The branches are
  in the order of the source.
\<close>

definition handleCountrySelect ::
  "bool \<Rightarrow> 'g CountryFeature \<Rightarrow> 'g WarState \<Rightarrow> 'g WarState \<times> bool \<times> LogLine" where
  "handleCountrySelect isSelectingAlly country prev =
     (if isSelectingAlly then
        (if slot_has_id (aggressor prev) country \<or> slot_has_id (defender prev) country
            \<or> is_ally (defenderAllies prev) country
         then (prev, True, (''Invalid Ally Selection: '' @ properties_name country, WARNING))
         else (prev\<lparr>defenderAllies := defenderAllies prev @ [country]\<rparr>, False,
               (''Ally added to coalition: '' @ properties_name country, INFO)))
      else if slot_has_id (aggressor prev) country then
        (prev\<lparr>aggressor := None\<rparr>, False,
         (''Faction A ('' @ properties_name country @ '') deselected.'', INFO))
      else if slot_has_id (defender prev) country then
        (prev\<lparr>defender := None, defenderAllies := []\<rparr>, False,
         (''Faction B ('' @ properties_name country @ '') deselected.'', INFO))
      else if is_ally (defenderAllies prev) country then
        (prev\<lparr>defenderAllies :=
                 filter (\<lambda>a. feature_id a \<noteq> feature_id country) (defenderAllies prev)\<rparr>,
         False, (''Ally ('' @ properties_name country @ '') removed from coalition.'', INFO))
      else if aggressor prev = None then
        (prev\<lparr>aggressor := Some country\<rparr>, False,
         (''Faction A selected: '' @ properties_name country, INFO))
      else if defender prev = None then
        (prev\<lparr>defender := Some country\<rparr>, False,
         (''Faction B selected: '' @ properties_name country, INFO))
      else
        (\<lparr>aggressor = Some country, defender = None, defenderAllies = []\<rparr>, False,
         (''Selection reset. Faction A: '' @ properties_name country, INFO)))"

text \<open>
  The part of the \<^verbatim>\<open>App\<close> component's state that selection touches: \<^verbatim>\<open>warState\<close>,
  \<^verbatim>\<open>isSelectingAlly\<close> and \<^verbatim>\<open>logs\<close> (a log line is kept as its message and type; the
  random id and the clock time that \<^verbatim>\<open>addLog\<close> attaches are left out).
\<close>

record 'g AppState =
  warState :: "'g WarState"
  isSelectingAlly :: bool
  logs :: "LogLine list"

text \<open>\<^verbatim>\<open>useState<WarState>({ aggressor: null, defender: null, defenderAllies: [] })\<close>\<close>

definition initialWarState :: "'g WarState" where
  "initialWarState = \<lparr>aggressor = None, defender = None, defenderAllies = []\<rparr>"

definition initialAppState :: "LogLine list \<Rightarrow> 'g AppState" where
  "initialAppState initial_logs =
     \<lparr>warState = initialWarState, isSelectingAlly = False, logs = initial_logs\<rparr>"

text \<open>
  The two user events that reach the selection: a click resolved to a territory (the
  globe calls \<^verbatim>\<open>onCountrySelect\<close>), and the "+ CALL ALLY" button, which is rendered only
  while a defender is selected and flips \<^verbatim>\<open>isSelectingAlly\<close>.
\<close>

datatype 'g SelectionEvent = Click "'g CountryFeature" | CallAllyButton

definition selection_step :: "'g SelectionEvent \<Rightarrow> 'g AppState \<Rightarrow> 'g AppState" where
  "selection_step ev s =
     (case ev of
        Click country \<Rightarrow>
          (case handleCountrySelect (isSelectingAlly s) country (warState s) of
             (ws, mode, line) \<Rightarrow>
               s\<lparr>warState := ws, isSelectingAlly := mode, logs := logs s @ [line]\<rparr>)
      | CallAllyButton \<Rightarrow>
          (if defender (warState s) = None then s
           else s\<lparr>isSelectingAlly := \<not> isSelectingAlly s\<rparr>))"

definition run_selection :: "'g SelectionEvent list \<Rightarrow> 'g AppState \<Rightarrow> 'g AppState" where
  "run_selection evs s = fold selection_step evs s"

text \<open>
  The three roles hold pairwise different identifiers: the aggressor is not the defender,
  and neither is among the allies. Identifiers are compared as the code compares them, so
  two features without identifier count as the same territory.
\<close>

definition roles_disjoint :: "'g WarState \<Rightarrow> bool" where
  "roles_disjoint ws =
     ((case aggressor ws of
         None \<Rightarrow> True
       | Some a \<Rightarrow>
           (case defender ws of None \<Rightarrow> True | Some d \<Rightarrow> feature_id a \<noteq> feature_id d)
           \<and> \<not> is_ally (defenderAllies ws) a)
      \<and> (case defender ws of
            None \<Rightarrow> True
          | Some d \<Rightarrow> \<not> is_ally (defenderAllies ws) d))"

text \<open>The territory in the defender slot, if any, has an identifier.\<close>

definition defender_has_id :: "'g WarState \<Rightarrow> bool" where
  "defender_has_id ws =
     (case defender ws of None \<Rightarrow> True | Some d \<Rightarrow> feature_id d \<noteq> IdUndefined)"

section \<open>Globe interaction (HoloGlobe.tsx)\<close>

text \<open>
  In the globe component JavaScript numbers are modelled as exact reals: the model
  follows the arithmetic the code writes and leaves IEEE rounding out. A point is a
  pair, screen \<open>(x, y)\<close> or geographic \<open>(lng, lat)\<close>; the rotation is \<open>(spin, tilt)\<close>.

  The refs of the component: \<^verbatim>\<open>rotationRef\<close>, \<^verbatim>\<open>velocityRef\<close>, \<^verbatim>\<open>isDraggingRef\<close>,
  \<^verbatim>\<open>lastMouseRef\<close>, \<^verbatim>\<open>startDragRef\<close>, and the rotation that the d3 projection object
  was last given (\<^verbatim>\<open>projection.rotate(rotationRef.current)\<close> runs once per frame).
\<close>

type_synonym point = "real \<times> real"

record GlobeState =
  rotation :: point
  velocity :: point
  isDragging :: bool
  lastMouse :: point
  startDrag :: point
  projRotation :: point

definition initialGlobeState :: GlobeState where
  "initialGlobeState =
     \<lparr>rotation = (0, -20), velocity = (2 / 100, 0), isDragging = False,
      lastMouse = (0, 0), startDrag = (0, 0), projRotation = (0, -20)\<rparr>"


text \<open>
  The "Physics: Rotation & Inertia" block at the head of \<^verbatim>\<open>render\<close>, followed by
  \<^verbatim>\<open>projection.rotate(rotationRef.current)\<close>. Friction, idle spin, integration and the
  clamp of the tilt all sit inside \<^verbatim>\<open>if (!isDraggingRef.current)\<close>.
\<close>

definition render_rotation :: "GlobeState \<Rightarrow> GlobeState" where
  "render_rotation s =
     (let s1 =
        (if \<not> isDragging s then
           (let v0 = fst (velocity s) * (92 / 100);
                v1 = snd (velocity s) * (92 / 100);
                v0' = (if \<bar>v0\<bar> < 5 / 100 then v0 * (9 / 10) + (5 / 100) * (1 / 10) else v0);
                r0 = fst (rotation s) + v0';
                r1 = snd (rotation s) + v1
            in s\<lparr>velocity := (v0', v1), rotation := (r0, max (-45) (min 45 r1))\<rparr>)
         else s)
      in s1\<lparr>projRotation := rotation s1\<rparr>)"

definition handleMouseDown :: "point \<Rightarrow> GlobeState \<Rightarrow> GlobeState" where
  "handleMouseDown e s =
     s\<lparr>isDragging := True, velocity := (0, 0), lastMouse := e, startDrag := e\<rparr>"

definition handleMouseMove :: "point \<Rightarrow> GlobeState \<Rightarrow> GlobeState" where
  "handleMouseMove e s =
     (if isDragging s then
        (let dx = fst e - fst (lastMouse s);
             dy = snd e - snd (lastMouse s)
         in s\<lparr>rotation := (fst (rotation s) + dx * (1 / 2), snd (rotation s) - dy * (1 / 2)),
              velocity := (dx * (1 / 2), - dy * (1 / 2)),
              lastMouse := e\<rparr>)
      else s)"

text \<open>
  What the handlers read from outside the component: the canvas and its bounding
  rectangle, the loaded \<^verbatim>\<open>worldData.features\<close>, and the d3 functions
  \<^verbatim>\<open>projection.invert\<close> (a function of the projection's rotation), \<^verbatim>\<open>d3.geoContains\<close>
  and \<^verbatim>\<open>d3.geoCentroid\<close>. The d3 functions are library code and are parameters here.
\<close>

record Canvas =
  rect_left :: real
  rect_top :: real
  rect_width :: real
  rect_height :: real
  canvas_width :: real
  canvas_height :: real
  dpr :: real

record 'g World =
  canvas :: Canvas
  features :: "'g CountryFeature list"
  invert :: "point \<Rightarrow> point \<Rightarrow> point option"
  geoContains :: "'g CountryFeature \<Rightarrow> point \<Rightarrow> bool"
  geoCentroid :: "'g CountryFeature \<Rightarrow> point"

text \<open>
  \<^verbatim>\<open>Math.sqrt(Math.pow(e.clientX - start.x, 2) + Math.pow(e.clientY - start.y, 2))\<close>
\<close>

definition pixel_dist :: "point \<Rightarrow> point \<Rightarrow> real" where
  "pixel_dist e start = sqrt ((fst e - fst start)\<^sup>2 + (snd e - snd start)\<^sup>2)"

text \<open>
  The body of \<^verbatim>\<open>if (dist < 15)\<close>: scale the pointer position to canvas coordinates,
  invert the projection, and \<^verbatim>\<open>find\<close> the first feature that contains the point. The
  result is the argument \<^verbatim>\<open>onCountrySelect\<close> is called with, \<open>None\<close> when it is not
  called. (The scale factors divide by the rectangle's size and the pixel ratio, which are
  positive for a canvas that is laid out.)
\<close>

definition canvas_point :: "Canvas \<Rightarrow> point \<Rightarrow> point" where
  "canvas_point cv e =
     (let scaleX = canvas_width cv / rect_width cv;
          scaleY = canvas_height cv / rect_height cv;
          x = (fst e - rect_left cv) * scaleX / dpr cv;
          y = (snd e - rect_top cv) * scaleY / dpr cv
      in (x, y))"

definition hit_test :: "'g World \<Rightarrow> point \<Rightarrow> point \<Rightarrow> 'g CountryFeature option" where
  "hit_test w rot e =
     (case invert w rot (canvas_point (canvas w) e) of
        None \<Rightarrow> None
      | Some inverted \<Rightarrow> find (\<lambda>feature. geoContains w feature inverted) (features w))"

definition handleMouseUp ::
  "'g World \<Rightarrow> point \<Rightarrow> GlobeState \<Rightarrow> GlobeState \<times> 'g CountryFeature option" where
  "handleMouseUp w e s =
     (if isDragging s then
        (s\<lparr>isDragging := False\<rparr>,
         if pixel_dist e (startDrag s) < 15 then hit_test w (projRotation s) e else None)
      else (s, None))"

text \<open>The events the globe receives, and a run of them from a given state.\<close>

datatype GlobeEvent = MouseDown point | MouseMove point | MouseUp point | Frame

definition globe_step :: "'g World \<Rightarrow> GlobeEvent \<Rightarrow> GlobeState \<Rightarrow> GlobeState" where
  "globe_step w ev s =
     (case ev of
        MouseDown e \<Rightarrow> handleMouseDown e s
      | MouseMove e \<Rightarrow> handleMouseMove e s
      | MouseUp e \<Rightarrow> fst (handleMouseUp w e s)
      | Frame \<Rightarrow> render_rotation s)"

definition run_globe :: "'g World \<Rightarrow> GlobeEvent list \<Rightarrow> GlobeState \<Rightarrow> GlobeState" where
  "run_globe w evs s = fold (globe_step w) evs s"

text \<open>
  A pointer release seen by the whole application: the globe handles it, and when it
  calls \<^verbatim>\<open>onCountrySelect\<close> the selection handler runs on the application state.
\<close>

definition pointer_up ::
  "'g World \<Rightarrow> point \<Rightarrow> GlobeState \<times> 'g AppState \<Rightarrow> GlobeState \<times> 'g AppState" where
  "pointer_up w e st =
     (case handleMouseUp w e (fst st) of
        (g, None) \<Rightarrow> (g, snd st)
      | (g, Some country) \<Rightarrow> (g, selection_step (Click country) (snd st)))"

text \<open>Between a press and its release the globe sees pointer moves and frames only.\<close>

definition keeps_gesture :: "GlobeEvent \<Rightarrow> bool" where
  "keeps_gesture ev = (case ev of MouseMove e \<Rightarrow> True | Frame \<Rightarrow> True | _ \<Rightarrow> False)"

section \<open>Conflict paths, missiles and particles (the simulation layer of render)\<close>

text \<open>
  The model keeps what the layer computes and stores: the path list, the progress of the
  missiles and the particle list. Drawing on the canvas is left out, and so is the
  decision to spawn a particle, which depends on \<^verbatim>\<open>Math.random()\<close> and on the d3
  projection; a spawned particle is pushed at the end of the list before the particle
  loop of the same frame runs.
\<close>

datatype PathType = AGGRESSION | COUNTER_ATTACK

record ConflictPath =
  path_start :: point
  path_end :: point
  path_color :: string
  path_type :: PathType

text \<open>
  The path list built at the head of "LAYER 4". The layer runs only under
  \<^verbatim>\<open>aggressor && defender && currentIsSimulating\<close>; \<open>None\<close> is a frame that skips it.
  The first \<^verbatim>\<open>push\<close> is the aggression path, then \<^verbatim>\<open>defenderAllies.forEach\<close> pushes one
  counter-attack path per ally, in the order of the ally list.
\<close>

definition conflict_paths :: "'g World \<Rightarrow> 'g WarState \<Rightarrow> bool \<Rightarrow> ConflictPath list option" where
  "conflict_paths w ws currentIsSimulating =
     (case aggressor ws of
        None \<Rightarrow> None
      | Some agg \<Rightarrow>
          (case defender ws of
             None \<Rightarrow> None
           | Some dfd \<Rightarrow>
               (if currentIsSimulating then
                  (let centerAggressor = geoCentroid w agg;
                       centerDefender = geoCentroid w dfd
                   in Some (\<lparr>path_start = centerAggressor, path_end = centerDefender,
                              path_color = ''#f97316'', path_type = AGGRESSION\<rparr>
                            # map (\<lambda>ally. \<lparr>path_start = geoCentroid w ally,
                                            path_end = centerAggressor,
                                            path_color = ''#22d3ee'',
                                            path_type = COUNTER_ATTACK\<rparr>)
                                  (defenderAllies ws)))
                else None)))"

text \<open>
  \<^verbatim>\<open>%\<close> on JavaScript numbers is the remainder of the division truncated towards zero:
  the result has the sign of the dividend.
\<close>

definition trunc :: "real \<Rightarrow> int" where
  "trunc r = (if 0 \<le> r then \<lfloor>r\<rfloor> else \<lceil>r\<rceil>)"

definition js_fmod :: "real \<Rightarrow> real \<Rightarrow> real" where
  "js_fmod x y = x - y * of_int (trunc (x / y))"

record Missile =
  m_t :: real
  speed :: real
  offset :: real
  m_id :: nat
  pathIndex :: nat

text \<open>
  \<^verbatim>\<open>initMissiles\<close> fills the pool with 20 missiles whose \<^verbatim>\<open>t\<close> and \<^verbatim>\<open>offset\<close> are
  \<^verbatim>\<open>Math.random()\<close> and whose speed is \<^verbatim>\<open>0.2 + Math.random() * 0.2\<close>. The draws of
  missile \<open>i\<close> are \<open>draws i\<close>, in the order the source makes them; a draw is in [0, 1).
\<close>

definition initMissiles :: "(nat \<Rightarrow> real \<times> real \<times> real) \<Rightarrow> Missile list" where
  "initMissiles draws =
     map (\<lambda>i. case draws i of
                 (r1, r2, r3) \<Rightarrow>
                   \<lparr>m_t = r1, speed = 2 / 10 + r2 * (2 / 10), offset = r3, m_id = i,
                    pathIndex = 0\<rparr>)
         [0..<20]"

text \<open>
  One missile in one frame of the \<^verbatim>\<open>missiles.forEach\<close> loop: the stored \<^verbatim>\<open>m.t\<close> is
  increased by \<^verbatim>\<open>m.speed * dt\<close>, and the local \<^verbatim>\<open>cycleT = (m.t + m.offset) % 1.5\<close> is
  computed from it. The result is the updated missile, the index of the path it is drawn
  on (\<^verbatim>\<open>idx % paths.length\<close>) and \<^verbatim>\<open>cycleT\<close>; the missile is drawn only when
  \<^verbatim>\<open>cycleT <= 1\<close>.
\<close>

definition cycleT :: "Missile \<Rightarrow> real" where
  "cycleT m = js_fmod (m_t m + offset m) (3 / 2)"

definition advance_missile :: "real \<Rightarrow> Missile \<Rightarrow> Missile" where
  "advance_missile dt m = m\<lparr>m_t := m_t m + speed m * dt\<rparr>"

definition missile_frame :: "real \<Rightarrow> nat \<Rightarrow> nat \<Rightarrow> Missile \<Rightarrow> Missile \<times> nat \<times> real" where
  "missile_frame dt npaths idx m =
     (let m' = advance_missile dt m in (m', idx mod npaths, cycleT m'))"

definition render_missiles :: "real \<Rightarrow> nat \<Rightarrow> Missile list \<Rightarrow> (Missile \<times> nat \<times> real) list" where
  "render_missiles dt npaths ms = map (\<lambda>(idx, m). missile_frame dt npaths idx m) (enumerate 0 ms)"

text \<open>The missile pool after a run of frames with the given time steps.\<close>

definition missiles_after :: "real list \<Rightarrow> nat \<Rightarrow> Missile list \<Rightarrow> Missile list" where
  "missiles_after dts npaths ms = fold (\<lambda>dt pool. map fst (render_missiles dt npaths pool)) dts ms"

record Particle =
  p_x :: real
  p_y :: real
  vx :: real
  vy :: real
  life :: real
  maxLife :: real
  p_size :: real
  p_color :: string

text \<open>
  The particle loop of \<^verbatim>\<open>render\<close>. The decay rate, the literal \<^verbatim>\<open>1.5\<close> of
  \<^verbatim>\<open>p.life -= dt * 1.5\<close>, is the argument \<open>r\<close>. The source counts \<open>i\<close> down from
  \<^verbatim>\<open>particles.length - 1\<close> to 0, updates \<^verbatim>\<open>particles[i]\<close> in place and splices it out
  when its life is not positive; \<open>particle_loop r dt (Suc i) ps\<close> is the iteration at
  index \<open>i\<close>.
\<close>

definition decay_particle :: "real \<Rightarrow> real \<Rightarrow> Particle \<Rightarrow> Particle" where
  "decay_particle r dt p =
     p\<lparr>life := life p - dt * r, p_x := p_x p + vx p * dt, p_y := p_y p + vy p * dt\<rparr>"

fun particle_loop :: "real \<Rightarrow> real \<Rightarrow> nat \<Rightarrow> Particle list \<Rightarrow> Particle list" where
  "particle_loop r dt 0 ps = ps"
| "particle_loop r dt (Suc i) ps =
     (let p = decay_particle r dt (ps ! i)
      in if life p \<le> 0 then particle_loop r dt i (take i ps @ drop (Suc i) ps)
         else particle_loop r dt i (ps[i := p]))"

definition render_particles :: "real \<Rightarrow> real \<Rightarrow> Particle list \<Rightarrow> Particle list" where
  "render_particles r dt ps = particle_loop r dt (length ps) ps"

definition particles_after :: "real \<Rightarrow> real \<Rightarrow> nat \<Rightarrow> Particle list \<Rightarrow> Particle list" where
  "particles_after r dt k ps = (render_particles r dt ^^ k) ps"

text \<open>The literal of the source, and a particle as the missile loop creates it.\<close>

definition decay_rate :: real where
  "decay_rate = 3 / 2"

definition new_particle :: "point \<Rightarrow> point \<Rightarrow> real \<Rightarrow> string \<Rightarrow> Particle" where
  "new_particle destPos v sz col =
     \<lparr>p_x = fst destPos, p_y = snd destPos, vx = fst v, vy = snd v,
      life = 1, maxLife = 1, p_size = sz, p_color = col\<rparr>"

section \<open>Battle report fallback (services/geminiService.ts)\<close>

text \<open>
  Strings are lists of 8-bit characters; \<^verbatim>\<open>charCodeAt\<close> is the character code, which
  covers names written in Latin-1.

  \<^verbatim>\<open>%\<close> on integers keeps the sign of the dividend, and \<^verbatim>\<open>>>\<close> shifts the 32-bit
  two's-complement value of its operand arithmetically.
\<close>

definition js_rem :: "int \<Rightarrow> int \<Rightarrow> int" where
  "js_rem a b = sgn a * (\<bar>a\<bar> mod \<bar>b\<bar>)"

definition js_sar :: "int \<Rightarrow> nat \<Rightarrow> int" where
  "js_sar x n = sint (signed_drop_bit n (word_of_int x :: 32 word))"

text \<open>
  JavaScript numbers are IEEE 754 doubles, and the report depends on how they round: the
  test for a close match and the confidence figure fall on the other side of a threshold
  for some inputs when computed exactly. So the arithmetic of the report is modelled as
  the double arithmetic is defined: the result of an operation is the exact result
  rounded to the nearest double, ties to the even significand. A double is a whole
  multiple of the unit in the last place of its binade, \<open>2 powi (e - 52)\<close> for a magnitude
  in \<open>[2 powi e, 2 powi (e + 1))\<close>, with \<open>e\<close> no smaller than \<open>-1022\<close> (the subnormal
  range). Magnitudes of \<open>2 powi 1024\<close> and more, which round to \<^verbatim>\<open>Infinity\<close>, do not occur
  here: a score is below 400 and a draw below 1.
\<close>

definition binade :: "real \<Rightarrow> int" where
  "binade a = Max {e \<in> {- 1022 .. 1023}. e = - 1022 \<or> 2 powi e \<le> a}"

definition round_half_even :: "real \<Rightarrow> int" where
  "round_half_even q =
     (let f = \<lfloor>q\<rfloor>; r = q - of_int f
      in if r < 1 / 2 then f
         else if 1 / 2 < r then f + 1
         else if even f then f else f + 1)"

definition fl :: "real \<Rightarrow> real" where
  "fl x = (let ulp = 2 powi (binade \<bar>x\<bar> - 52) in of_int (round_half_even (x / ulp)) * ulp)"

text \<open>
  \<^verbatim>\<open>getPowerScore\<close>: the loop \<^verbatim>\<open>h = Math.imul(31, h) + name.charCodeAt(i) | 0\<close> is
  arithmetic on 32-bit words; \<^verbatim>\<open>Math.abs\<close> of the signed value is the seed.
\<close>

definition getPowerScore :: "string \<Rightarrow> int" where
  "getPowerScore name =
     (let h = fold (\<lambda>c h. 31 * h + of_nat (of_char c)) name (0 :: 32 word);
          seed = \<bar>sint h\<bar>;
          infantry = 40 + js_rem seed 60;
          armor = 40 + js_rem (js_sar seed 2) 60;
          air = 40 + js_rem (js_sar seed 4) 60;
          tech = 1 + js_rem seed 10
      in infantry + armor + air + tech * 10)"

definition EXTERNAL_EVENTS :: "string list" where
  "EXTERNAL_EVENTS =
     [''Neighboring nations impose a strict trade embargo, stifling supply lines.'',
      ''Orbital blockade established by the Lunar Defense Force.'',
      ''Neutral neighboring states mobilize borders to contain the conflict.'',
      ''UN Peacekeeping drone squadrons deployed to protect civilian sectors.'',
      ''Cyber-attack from a rogue third-party state blacks out the region.'',
      ''Mercenary fleets from the Outer Rim join the aggressor's vanguard.'',
      ''Global trade routes diverted, causing economic collapse in the defender's rear guard.'']"

definition BATTLE_TYPES :: "string list" where
  "BATTLE_TYPES =
     [''Orbital Bombardment'',
      ''Cyber-Kinetic Hybrid Assault'',
      ''Amphibious Landing'',
      ''Guerrilla Drone Warfare'',
      ''High-Altitude Air Superiority'',
      ''Mech-Infantry Blitzkrieg'']"

text \<open>String helpers of the template: newline, \<^verbatim>\<open>join\<close>, \<^verbatim>\<open>trim\<close>, \<^verbatim>\<open>toLowerCase\<close>
  (on the ASCII letters, which is all the battle types contain) and the decimal form of
  an integer.\<close>

definition nl :: string where
  "nl = [CHR 0x0A]"

fun join :: "string \<Rightarrow> string list \<Rightarrow> string" where
  "join sep [] = []"
| "join sep [x] = x"
| "join sep (x # y # ys) = x @ sep @ join sep (y # ys)"

definition is_js_space :: "char \<Rightarrow> bool" where
  "is_js_space c = (of_char c \<in> {9, 10, 11, 12, 13, 32, 160 :: nat})"

definition trim :: "string \<Rightarrow> string" where
  "trim s = rev (dropWhile is_js_space (rev (dropWhile is_js_space s)))"

definition lower_char :: "char \<Rightarrow> char" where
  "lower_char c =
     (case map_of (zip ''ABCDEFGHIJKLMNOPQRSTUVWXYZ'' ''abcdefghijklmnopqrstuvwxyz'') c of
        None \<Rightarrow> c
      | Some l \<Rightarrow> l)"

definition toLowerCase :: "string \<Rightarrow> string" where
  "toLowerCase s = map lower_char s"

fun digits :: "nat \<Rightarrow> string" where
  "digits n = (if n < 10 then [''0123456789'' ! n]
               else digits (n div 10) @ [''0123456789'' ! (n mod 10)])"

declare digits.simps [simp del]

definition show_int :: "int \<Rightarrow> string" where
  "show_int i = (if i < 0 then ''-'' @ digits (nat (- i)) else digits (nat i))"

text \<open>
  \<^verbatim>\<open>generateMockWarLog\<close> calls \<^verbatim>\<open>Math.random()\<close> four times: for \<^verbatim>\<open>randomFactor\<close>, for
  the index into \<^verbatim>\<open>EXTERNAL_EVENTS\<close>, for the index into \<^verbatim>\<open>BATTLE_TYPES\<close> and for
  \<^verbatim>\<open>winProb\<close>. The four values, doubles in [0, 1), are an argument of the model.
\<close>

record Draws =
  randomFactor :: real
  eventDraw :: real
  battleDraw :: real
  confidenceDraw :: real

text \<open>
  \<^verbatim>\<open>allies.forEach(ally => alliesScore += (getPowerScore(ally) * 0.5))\<close>, and the chance
  \<^verbatim>\<open>total === 0 ? 0.5 : scoreA / total\<close> with \<^verbatim>\<open>total = scoreA + scoreB + alliesScore\<close>;
  every operation rounds.
\<close>

definition alliesScore :: "string list \<Rightarrow> real" where
  "alliesScore allies =
     fold (\<lambda>ally acc. fl (acc + fl (of_int (getPowerScore ally) * (1 / 2)))) allies 0"

definition chanceA :: "string \<Rightarrow> string \<Rightarrow> string list \<Rightarrow> real" where
  "chanceA countryA countryB allies =
     (let scoreA = of_int (getPowerScore countryA);
          scoreB = of_int (getPowerScore countryB);
          total = fl (fl (scoreA + scoreB) + alliesScore allies)
      in if total = 0 then 1 / 2 else fl (scoreA / total))"

text \<open>
  \<^verbatim>\<open>Math.abs(chanceA - 0.5) < 0.1\<close>: the difference rounds, and the literal \<^verbatim>\<open>0.1\<close> is the
  double nearest to one tenth.
\<close>

definition closeMatch :: "real \<Rightarrow> bool" where
  "closeMatch chance = (\<bar>fl (chance - 1 / 2)\<bar> < fl (1 / 10))"

text \<open>
  \<^verbatim>\<open>Math.floor(Math.random() * xs.length)\<close> and \<^verbatim>\<open>Math.floor(55 + Math.random() * 40)\<close>.
\<close>

definition randomIndex :: "real \<Rightarrow> nat \<Rightarrow> nat" where
  "randomIndex draw n = nat \<lfloor>fl (draw * of_nat n)\<rfloor>"

definition confidence :: "real \<Rightarrow> int" where
  "confidence draw = \<lfloor>fl (55 + fl (draw * 40))\<rfloor>"

text \<open>
  The template literal of the report. It opens with a line break and closes with a line
  break and two blanks, which \<^verbatim>\<open>.trim()\<close> removes; \<open>report_body\<close> is what stands between.
\<close>

definition report_body :: "string \<Rightarrow> string \<Rightarrow> string list \<Rightarrow> bool \<Rightarrow> string \<Rightarrow> string
                        \<Rightarrow> string \<Rightarrow> string \<Rightarrow> int \<Rightarrow> string" where
  "report_body countryA countryB allies isCloseMatch winner loser event battleType winProb =
     ''*** SIMULATION REPORT (OFFLINE PROTOCOL) ***'' @ nl
       @ ''SCENARIO: '' @ countryA @ '' vs '' @ countryB @ '' ''
         @ (if length allies > 0 then ''(+ '' @ join '', '' allies @ '')'' else []) @ nl
       @ nl
       @ ''1. THEATER OF WAR:'' @ nl
       @ ''Conflict escalates into a '' @ battleType @ ''. '' @ nl
       @ (if isCloseMatch then ''Forces are evenly matched in initial skirmishes.''
          else winner @ '' demonstrates immediate tactical superiority.'') @ nl
       @ (if length allies > 0
          then ''The intervention of '' @ join '', '' allies
                 @ '' has significantly altered the battlefield dynamics.''
          else []) @ nl
       @ nl
       @ ''2. EXTERNAL INFLUENCE:'' @ nl
       @ event @ nl
       @ nl
       @ ''3. TACTICAL ANALYSIS:'' @ nl
       @ winner @ '' effectively counters '' @ loser @ [CHR 0x27] @ ''s defenses using advanced ''
         @ toLowerCase battleType @ '' tactics. '' @ nl
       @ loser @ '' attempts asymmetric countermeasures but sustains heavy infrastructure damage.''
         @ nl
       @ nl
       @ ''4. PREDICTED OUTCOME:'' @ nl
       @ ''VICTORY: '' @ winner @ nl
       @ ''CONFIDENCE: '' @ show_int winProb @ ''%'' @ nl
       @ loser @ '' is forced to retreat to secondary defensive lines.''"

definition report :: "string \<Rightarrow> string \<Rightarrow> string list \<Rightarrow> bool \<Rightarrow> string \<Rightarrow> string
                        \<Rightarrow> string \<Rightarrow> string \<Rightarrow> int \<Rightarrow> string" where
  "report countryA countryB allies isCloseMatch winner loser event battleType winProb =
     trim (nl
       @ report_body countryA countryB allies isCloseMatch winner loser event battleType winProb
       @ nl @ ''  '')"

definition generateMockWarLog :: "Draws \<Rightarrow> string \<Rightarrow> string \<Rightarrow> string list \<Rightarrow> string" where
  "generateMockWarLog d countryA countryB allies =
     (let chance = chanceA countryA countryB allies;
          winner = (if randomFactor d < chance then countryA else countryB);
          loser = (if winner = countryA then countryB else countryA);
          isCloseMatch = closeMatch chance;
          event = EXTERNAL_EVENTS ! randomIndex (eventDraw d) (length EXTERNAL_EVENTS);
          battleType = BATTLE_TYPES ! randomIndex (battleDraw d) (length BATTLE_TYPES);
          winProb = confidence (confidenceDraw d)
      in report countryA countryB allies isCloseMatch winner loser event battleType winProb)"

text \<open>
  \<^verbatim>\<open>simulateWarScenario\<close>: the text of the remote model when the call succeeds with a
  non-empty text, the fallback otherwise (\<open>None\<close> is a call that threw).
\<close>

definition simulateWarScenario ::
  "string option \<Rightarrow> Draws \<Rightarrow> string \<Rightarrow> string \<Rightarrow> string list \<Rightarrow> string" where
  "simulateWarScenario response d countryA countryB allies =
     (case response of
        None \<Rightarrow> generateMockWarLog d countryA countryB allies
      | Some text \<Rightarrow>
          (if text = [] then generateMockWarLog d countryA countryB allies else text))"

section \<open>A small world for concrete runs\<close>

text \<open>
  Territories whose geometry is a box \<open>(lower-left, upper-right)\<close> in degrees; the
  first two overlap on [50, 100] x [50, 100]. Containment is containment in the box, the
  centroid is the middle of the box, and the projection is the identity on the canvas
  [0, 800] x [0, 600] and undefined outside it.
\<close>

definition box_contains :: "(point \<times> point) CountryFeature \<Rightarrow> point \<Rightarrow> bool" where
  "box_contains f p =
     (fst (fst (geometry f)) \<le> fst p \<and> fst p \<le> fst (snd (geometry f))
      \<and> snd (fst (geometry f)) \<le> snd p \<and> snd p \<le> snd (snd (geometry f)))"

definition box_centroid :: "(point \<times> point) CountryFeature \<Rightarrow> point" where
  "box_centroid f =
     ((fst (fst (geometry f)) + fst (snd (geometry f))) / 2,
      (snd (fst (geometry f)) + snd (snd (geometry f))) / 2)"

definition land_A :: "(point \<times> point) CountryFeature" where
  "land_A = \<lparr>feature_id = IdStr ''004'', properties_name = ''Aland'', geometry = ((0, 0), (100, 100))\<rparr>"

definition land_B :: "(point \<times> point) CountryFeature" where
  "land_B = \<lparr>feature_id = IdStr ''008'', properties_name = ''Bland'', geometry = ((50, 50), (200, 200))\<rparr>"

definition land_C :: "(point \<times> point) CountryFeature" where
  "land_C = \<lparr>feature_id = IdNum 12, properties_name = ''Cland'', geometry = ((300, 300), (400, 400))\<rparr>"

text \<open>A territory without identifier, as the dataset has some.\<close>

definition land_K :: "(point \<times> point) CountryFeature" where
  "land_K = \<lparr>feature_id = IdUndefined, properties_name = ''Kland'',
             geometry = ((500, 500), (510, 510))\<rparr>"

definition small_world :: "(point \<times> point) World" where
  "small_world =
     \<lparr>canvas = \<lparr>rect_left = 0, rect_top = 0, rect_width = 800, rect_height = 600,
                canvas_width = 1600, canvas_height = 1200, dpr = 2\<rparr>,
      features = [land_A, land_B, land_C],
      invert = (\<lambda>rot p. if 0 \<le> fst p \<and> fst p \<le> 800 \<and> 0 \<le> snd p \<and> snd p \<le> 600
                         then Some p else None),
      geoContains = box_contains,
      geoCentroid = box_centroid\<rparr>"

text \<open>Random draws for the missile pool: every missile gets \<open>t = 0.9\<close>, speed 0.3 and
  offset 0.5.\<close>

definition steady_draws :: "nat \<Rightarrow> real \<times> real \<times> real" where
  "steady_draws i = (9 / 10, 1 / 2, 1 / 2)"

section \<open>Selection: proofs\<close>

lemma is_ally_iff: "is_ally allies c \<longleftrightarrow> feature_id c \<in> feature_id ` set allies"
  unfolding is_ally_def list_ex_iff image_iff by metis

lemma roles_disjoint_iff:
  "roles_disjoint ws \<longleftrightarrow>
     (\<forall>a d. aggressor ws = Some a \<and> defender ws = Some d \<longrightarrow> feature_id a \<noteq> feature_id d)
     \<and> (\<forall>a. aggressor ws = Some a \<longrightarrow> feature_id a \<notin> feature_id ` set (defenderAllies ws))
     \<and> (\<forall>d. defender ws = Some d \<longrightarrow> feature_id d \<notin> feature_id ` set (defenderAllies ws))"
  by (auto simp: roles_disjoint_def is_ally_iff split: option.splits)

lemma handleCountrySelect_disjoint:
  assumes "roles_disjoint prev"
  shows "roles_disjoint (fst (handleCountrySelect m c prev))"
  using assms
  by (auto simp: handleCountrySelect_def roles_disjoint_def slot_has_id_def slot_id_def
           is_ally_iff split: option.splits)

lemma selection_step_disjoint:
  assumes "roles_disjoint (warState s)"
  shows "roles_disjoint (warState (selection_step ev s))"
proof (cases ev)
  case (Click c)
  obtain ws m l where h: "handleCountrySelect (isSelectingAlly s) c (warState s) = (ws, m, l)"
    by (cases "handleCountrySelect (isSelectingAlly s) c (warState s)") auto
  from handleCountrySelect_disjoint [OF assms, of "isSelectingAlly s" c] h
  have "roles_disjoint ws" by simp
  with Click h show ?thesis by (simp add: selection_step_def)
next
  case CallAllyButton
  with assms show ?thesis by (simp add: selection_step_def)
qed

lemma run_selection_disjoint:
  "roles_disjoint (warState s) \<Longrightarrow> roles_disjoint (warState (run_selection evs s))"
  unfolding run_selection_def
  by (induction evs arbitrary: s) (simp_all add: selection_step_disjoint)

lemma initial_disjoint: "roles_disjoint initialWarState"
  by (simp add: roles_disjoint_def initialWarState_def)

lemma handleCountrySelect_defender_id:
  assumes "defender_has_id prev"
  shows "defender_has_id (fst (handleCountrySelect m c prev))"
  using assms
  by (auto simp: handleCountrySelect_def defender_has_id_def slot_has_id_def slot_id_def
           split: option.splits)

lemma selection_step_defender_id:
  assumes "defender_has_id (warState s)"
  shows "defender_has_id (warState (selection_step ev s))"
proof (cases ev)
  case (Click c)
  obtain ws m l where h: "handleCountrySelect (isSelectingAlly s) c (warState s) = (ws, m, l)"
    by (cases "handleCountrySelect (isSelectingAlly s) c (warState s)") auto
  from handleCountrySelect_defender_id [OF assms, of "isSelectingAlly s" c] h
  have "defender_has_id ws" by simp
  with Click h show ?thesis by (simp add: selection_step_def)
next
  case CallAllyButton
  with assms show ?thesis by (simp add: selection_step_def)
qed

lemma run_selection_defender_id:
  "defender_has_id (warState s) \<Longrightarrow> defender_has_id (warState (run_selection evs s))"
  unfolding run_selection_def
  by (induction evs arbitrary: s) (simp_all add: selection_step_defender_id)

lemma reachable_invariants:
  "roles_disjoint (warState (run_selection evs (initialAppState l)))"
  "defender_has_id (warState (run_selection evs (initialAppState l)))"
  by (rule run_selection_disjoint, simp add: initialAppState_def initial_disjoint)
     (rule run_selection_defender_id,
      simp add: initialAppState_def initialWarState_def defender_has_id_def)

lemma defender_click:
  assumes "roles_disjoint prev" and "defender_has_id prev"
    and "defender prev = Some d" and "feature_id c = feature_id d"
  shows "fst (handleCountrySelect False c prev) = prev\<lparr>defender := None, defenderAllies := []\<rparr>"
  using assms
  by (auto simp: handleCountrySelect_def roles_disjoint_def defender_has_id_def
           slot_has_id_def slot_id_def split: option.splits)

text \<open>
  C1. Whatever sequence of clicks (and presses of the ally button) is processed, starting
  from the empty selection, the resulting selection keeps aggressor, defender and allies
  pairwise disjoint by identifier. The clicked features are arbitrary, those without
  identifier included.
\<close>

theorem selection_exclusive:
  "roles_disjoint (warState (run_selection evs (initialAppState l)))"
  by (rule run_selection_disjoint) (simp add: initialAppState_def initial_disjoint)

theorem selection_exclusive_witness:
  "warState (run_selection
      [Click land_K, Click land_A, Click land_B, CallAllyButton, Click land_A, Click land_C]
      (initialAppState []))
     = \<lparr>aggressor = Some land_A, defender = Some land_B, defenderAllies = [land_C]\<rparr>
   \<and> roles_disjoint (warState (run_selection
      [Click land_K, Click land_A, Click land_B, CallAllyButton, Click land_A, Click land_C]
      (initialAppState [])))
   \<and> roles_disjoint
       \<lparr>aggressor = Some land_A, defender = Some land_B, defenderAllies = [land_C]\<rparr>"
proof -
  let ?evs = "[Click land_K, Click land_A, Click land_B, CallAllyButton, Click land_A,
               Click land_C]"
  have run: "warState (run_selection ?evs (initialAppState []))
      = \<lparr>aggressor = Some land_A, defender = Some land_B, defenderAllies = [land_C]\<rparr>"
    by (simp add: run_selection_def selection_step_def handleCountrySelect_def slot_has_id_def
          slot_id_def is_ally_def initialAppState_def initialWarState_def
          land_A_def land_B_def land_C_def land_K_def)
  from selection_exclusive [of ?evs "[]"] run show ?thesis by simp
qed

text \<open>
  C8. With ally-selection mode off, a click on the territory that is the current aggressor
  empties the aggressor slot and changes nothing else; so whenever a click has put a
  territory into the aggressor slot, the same click repeated at once empties the slot.
\<close>

theorem aggressor_toggle:
  "(aggressor prev = Some a \<and> feature_id a = feature_id c \<longrightarrow>
      fst (handleCountrySelect False c prev) = prev\<lparr>aggressor := None\<rparr>)
   \<and> (aggressor (fst (handleCountrySelect False c prev)) = Some c \<longrightarrow>
      aggressor (fst (handleCountrySelect False c (fst (handleCountrySelect False c prev))))
        = None)"
  by (auto simp: handleCountrySelect_def slot_has_id_def slot_id_def split: option.splits)

theorem aggressor_toggle_witness:
  "aggressor (fst (handleCountrySelect False
       \<lparr>feature_id = IdStr ''004'', properties_name = ''Afghanistan'', geometry = ()\<rparr>
       initialWarState))
     = Some \<lparr>feature_id = IdStr ''004'', properties_name = ''Afghanistan'', geometry = ()\<rparr>
   \<and> aggressor (fst (handleCountrySelect False
       \<lparr>feature_id = IdStr ''004'', properties_name = ''Afghanistan'', geometry = ()\<rparr>
       (fst (handleCountrySelect False
          \<lparr>feature_id = IdStr ''004'', properties_name = ''Afghanistan'', geometry = ()\<rparr>
          initialWarState)))) = None
   \<and> fst (handleCountrySelect False
       \<lparr>feature_id = IdStr ''004'', properties_name = ''Kabul'', geometry = ()\<rparr>
       \<lparr>aggressor = Some \<lparr>feature_id = IdStr ''004'', properties_name = ''Afghanistan'', geometry = ()\<rparr>,
        defender = None, defenderAllies = []\<rparr>)
     = \<lparr>aggressor = None, defender = None, defenderAllies = []\<rparr>
   \<and> aggressor (fst (handleCountrySelect False land_K
       \<lparr>aggressor = Some land_A, defender = Some land_B, defenderAllies = [land_C]\<rparr>))
     = Some land_K
   \<and> aggressor (fst (handleCountrySelect False land_K (fst (handleCountrySelect False land_K
       \<lparr>aggressor = Some land_A, defender = Some land_B, defenderAllies = [land_C]\<rparr>))))
     = None"
proof -
  let ?A = "\<lparr>feature_id = IdStr ''004'', properties_name = ''Afghanistan'', geometry = ()\<rparr>"
  let ?A' = "\<lparr>feature_id = IdStr ''004'', properties_name = ''Kabul'', geometry = ()\<rparr>"
  let ?s = "\<lparr>aggressor = Some ?A, defender = None, defenderAllies = []\<rparr>"
  let ?full = "\<lparr>aggressor = Some land_A, defender = Some land_B, defenderAllies = [land_C]\<rparr>"
  have sel: "aggressor (fst (handleCountrySelect False ?A initialWarState)) = Some ?A"
    by (simp add: handleCountrySelect_def slot_has_id_def slot_id_def is_ally_def
          initialWarState_def)
  have ids: "aggressor ?s = Some ?A \<and> feature_id ?A = feature_id ?A'"
    by simp
  have selK: "aggressor (fst (handleCountrySelect False land_K ?full)) = Some land_K"
    by (simp add: handleCountrySelect_def slot_has_id_def slot_id_def is_ally_def
          land_A_def land_B_def land_C_def land_K_def)
  from aggressor_toggle [where prev = initialWarState and a = ?A and c = ?A] sel
  have two: "aggressor (fst (handleCountrySelect False ?A
               (fst (handleCountrySelect False ?A initialWarState)))) = None"
    by simp
  from aggressor_toggle [where prev = ?s and a = ?A and c = ?A'] ids
  have one: "fst (handleCountrySelect False ?A' ?s) = ?s\<lparr>aggressor := None\<rparr>"
    by blast
  from aggressor_toggle [where prev = ?full and a = land_A and c = land_K] selK
  have twoK: "aggressor (fst (handleCountrySelect False land_K
               (fst (handleCountrySelect False land_K ?full)))) = None"
    by blast
  from sel two one selK twoK show ?thesis by simp
qed

text \<open>
  C10. In every selection state that a sequence of clicks and presses of the ally button
  leads to from the empty selection, with ally-selection mode off, a click on the current
  defender empties the defender slot and the whole ally list in one transition and leaves
  the aggressor slot as it was.
\<close>

theorem defender_click_clears_allies:
  assumes "\<not> isSelectingAlly (run_selection evs (initialAppState l))"
    and "defender (warState (run_selection evs (initialAppState l))) = Some d"
    and "feature_id c = feature_id d"
  shows "warState (selection_step (Click c) (run_selection evs (initialAppState l)))
           = (warState (run_selection evs (initialAppState l)))
               \<lparr>defender := None, defenderAllies := []\<rparr>
         \<and> defender (warState (selection_step (Click c)
               (run_selection evs (initialAppState l)))) = None
         \<and> defenderAllies (warState (selection_step (Click c)
               (run_selection evs (initialAppState l)))) = []
         \<and> aggressor (warState (selection_step (Click c)
               (run_selection evs (initialAppState l))))
             = aggressor (warState (run_selection evs (initialAppState l)))"
proof -
  let ?s = "run_selection evs (initialAppState l)"
  from defender_click [OF reachable_invariants assms(2,3)]
  have upd: "fst (handleCountrySelect False c (warState ?s))
               = (warState ?s)\<lparr>defender := None, defenderAllies := []\<rparr>" .
  obtain ws m ln where h: "handleCountrySelect False c (warState ?s) = (ws, m, ln)"
    by (cases "handleCountrySelect False c (warState ?s)") auto
  with upd have ws: "ws = (warState ?s)\<lparr>defender := None, defenderAllies := []\<rparr>" by simp
  from assms(1) h have "warState (selection_step (Click c) ?s) = ws"
    by (simp add: selection_step_def)
  with ws show ?thesis by simp
qed

theorem defender_click_clears_allies_witness:
  "\<not> isSelectingAlly (run_selection
        [Click land_A, Click land_B, CallAllyButton, Click land_C] (initialAppState []))
   \<and> warState (run_selection
        [Click land_A, Click land_B, CallAllyButton, Click land_C] (initialAppState []))
       = \<lparr>aggressor = Some land_A, defender = Some land_B, defenderAllies = [land_C]\<rparr>
   \<and> warState (selection_step (Click land_B) (run_selection
        [Click land_A, Click land_B, CallAllyButton, Click land_C] (initialAppState [])))
       = \<lparr>aggressor = Some land_A, defender = None, defenderAllies = []\<rparr>"
proof -
  let ?evs = "[Click land_A, Click land_B, CallAllyButton, Click land_C]"
  let ?s = "run_selection ?evs (initialAppState [])"
  have run: "warState ?s
      = \<lparr>aggressor = Some land_A, defender = Some land_B, defenderAllies = [land_C]\<rparr>"
    and mode: "\<not> isSelectingAlly ?s"
    by (simp_all add: run_selection_def selection_step_def handleCountrySelect_def
          slot_has_id_def slot_id_def is_ally_def initialAppState_def initialWarState_def
          land_A_def land_B_def land_C_def)
  from run have d: "defender (warState ?s) = Some land_B" by simp
  from defender_click_clears_allies [OF mode d refl] run mode show ?thesis by simp
qed

section \<open>Globe interaction: proofs\<close>






lemma pixel_dist_lt_15:
  "pixel_dist e start < 15 \<longleftrightarrow> (fst e - fst start)\<^sup>2 + (snd e - snd start)\<^sup>2 < 225"
proof -
  have "sqrt 225 = 15" using real_sqrt_abs [of 15] by simp
  then have "pixel_dist e start < 15
      \<longleftrightarrow> sqrt ((fst e - fst start)\<^sup>2 + (snd e - snd start)\<^sup>2) < sqrt 225"
    by (simp add: pixel_dist_def)
  then show ?thesis by (simp only: real_sqrt_less_iff)
qed

lemma handleMouseUp_code [code]:
  "handleMouseUp w e s =
     (if isDragging s then
        (s\<lparr>isDragging := False\<rparr>,
         if (fst e - fst (startDrag s))\<^sup>2 + (snd e - snd (startDrag s))\<^sup>2 < 225
         then hit_test w (projRotation s) e else None)
      else (s, None))"
  by (simp add: handleMouseUp_def pixel_dist_lt_15)

lemma gesture_step_keeps:
  assumes "keeps_gesture ev" "isDragging s"
  shows "isDragging (globe_step w ev s) \<and> startDrag (globe_step w ev s) = startDrag s"
  using assms
  by (cases ev)
     (simp_all add: keeps_gesture_def globe_step_def handleMouseMove_def render_rotation_def
        Let_def)

lemma gesture_run_keeps:
  assumes "list_all keeps_gesture mid" "isDragging s"
  shows "isDragging (run_globe w mid s) \<and> startDrag (run_globe w mid s) = startDrag s"
  using assms unfolding run_globe_def
proof (induction mid arbitrary: s)
  case Nil
  then show ?case by simp
next
  case (Cons ev mid)
  from Cons.prems have k: "keeps_gesture ev" and ks: "list_all keeps_gesture mid" by simp_all
  from gesture_step_keeps [OF k Cons.prems(2), of w]
  have d: "isDragging (globe_step w ev s)" and st: "startDrag (globe_step w ev s) = startDrag s"
    by simp_all
  from Cons.IH [OF ks d] st show ?case by simp
qed

lemma press_then_gesture:
  assumes "list_all keeps_gesture mid"
  shows "isDragging (run_globe w (MouseDown e0 # mid) s)
         \<and> startDrag (run_globe w (MouseDown e0 # mid) s) = e0"
proof -
  have "run_globe w (MouseDown e0 # mid) s = run_globe w mid (handleMouseDown e0 s)"
    by (simp add: run_globe_def globe_step_def)
  moreover have "isDragging (handleMouseDown e0 s)" "startDrag (handleMouseDown e0 s) = e0"
    by (simp_all add: handleMouseDown_def)
  ultimately show ?thesis using gesture_run_keeps [OF assms, of "handleMouseDown e0 s" w]
    by simp
qed

text \<open>
  C7. For a press at \<open>e0\<close>, any moves and frames, and the release at \<open>e1\<close>: the release
  runs the hit test exactly when the pixel distance between \<open>e0\<close> and \<open>e1\<close> is strictly
  below 15. At distance 14 the hit test decides the callback; at distance 16, and at
  any distance from 15 up, the callback is not called and the selection is untouched.
\<close>

theorem click_iff_dist_below_15:
  assumes "list_all keeps_gesture mid"
  shows "snd (handleMouseUp w e1 (run_globe w (MouseDown e0 # mid) s))
           = (if pixel_dist e1 e0 < 15
              then hit_test w (projRotation (run_globe w (MouseDown e0 # mid) s)) e1
              else None)
         \<and> (pixel_dist e1 e0 = 14 \<longrightarrow>
              snd (handleMouseUp w e1 (run_globe w (MouseDown e0 # mid) s))
                = hit_test w (projRotation (run_globe w (MouseDown e0 # mid) s)) e1)
         \<and> (pixel_dist e1 e0 = 16 \<longrightarrow>
              snd (handleMouseUp w e1 (run_globe w (MouseDown e0 # mid) s)) = None
              \<and> snd (pointer_up w e1 (run_globe w (MouseDown e0 # mid) s, a)) = a)
         \<and> (15 \<le> pixel_dist e1 e0 \<longrightarrow>
              snd (handleMouseUp w e1 (run_globe w (MouseDown e0 # mid) s)) = None
              \<and> snd (pointer_up w e1 (run_globe w (MouseDown e0 # mid) s, a)) = a)"
  using press_then_gesture [OF assms, of w e0 s]
  by (auto simp: handleMouseUp_def pointer_up_def)

lemma pixel_dist_on_axis: "0 \<le> d \<Longrightarrow> pixel_dist (d, 0) (0, 0) = d"
  by (simp add: pixel_dist_def)

theorem click_iff_dist_below_15_witness:
  "list_all keeps_gesture [MouseMove (5, 0), Frame, MouseMove (14, 0)]
   \<and> pixel_dist (14, 0) (0, 0) = 14
   \<and> snd (handleMouseUp small_world (14, 0)
         (run_globe small_world (MouseDown (0, 0) # [MouseMove (5, 0), Frame, MouseMove (14, 0)])
            initialGlobeState)) = Some land_A
   \<and> pixel_dist (16, 0) (0, 0) = 16
   \<and> snd (handleMouseUp small_world (16, 0)
         (run_globe small_world (MouseDown (0, 0) # [MouseMove (5, 0), Frame, MouseMove (14, 0)])
            initialGlobeState)) = None"
proof -
  let ?mid = "[MouseMove (5, 0), Frame, MouseMove (14, 0)]"
  let ?s = "run_globe small_world (MouseDown (0, 0) # ?mid) initialGlobeState"
  have k: "list_all keeps_gesture ?mid" by (simp add: keeps_gesture_def)
  have d14: "pixel_dist (14, 0) (0, 0) = 14" and d16: "pixel_dist (16, 0) (0, 0) = 16"
    by (simp_all add: pixel_dist_on_axis)
  have hit: "hit_test small_world (projRotation ?s) (14, 0) = Some land_A"
    by (simp add: hit_test_def small_world_def canvas_point_def box_contains_def land_A_def)
  from click_iff_dist_below_15 [OF k, of small_world "(14, 0)" "(0, 0)" initialGlobeState] d14
  have "snd (handleMouseUp small_world (14, 0) ?s) = hit_test small_world (projRotation ?s) (14, 0)"
    by blast
  moreover
  from click_iff_dist_below_15 [OF k, of small_world "(16, 0)" "(0, 0)" initialGlobeState] d16
  have "snd (handleMouseUp small_world (16, 0) ?s) = None"
    by blast
  ultimately show ?thesis using k d14 d16 hit by simp
qed

lemma find_first_match:
  assumes "xs = ys @ f # zs" "P f" "\<forall>x \<in> set ys. \<not> P x"
  shows "find P xs = Some f"
  using assms by (induction ys arbitrary: xs) auto

lemma find_no_match: "(\<forall>x \<in> set xs. \<not> P x) \<Longrightarrow> find P xs = None"
  by (simp add: find_None_iff)

text \<open>
  C9. A release that counts as a click and whose canvas point inverts to \<open>pt\<close>: the
  callback receives the first feature, in list order, that contains \<open>pt\<close>, and the
  selection handler runs with it; when no feature contains \<open>pt\<close> the callback is not
  called and the application state is unchanged.
\<close>

theorem hit_test_first_match_or_nothing:
  assumes "isDragging g"
    and "pixel_dist e (startDrag g) < 15"
    and "invert w (projRotation g) (canvas_point (canvas w) e) = Some pt"
  shows "(features w = before @ f # after \<and> geoContains w f pt
            \<and> (\<forall>x \<in> set before. \<not> geoContains w x pt) \<longrightarrow>
          snd (handleMouseUp w e g) = Some f
          \<and> snd (pointer_up w e (g, a)) = selection_step (Click f) a)
         \<and> ((\<forall>x \<in> set (features w). \<not> geoContains w x pt) \<longrightarrow>
          snd (handleMouseUp w e g) = None
          \<and> snd (pointer_up w e (g, a)) = a)"
proof (intro conjI impI)
  assume h: "features w = before @ f # after \<and> geoContains w f pt
              \<and> (\<forall>x \<in> set before. \<not> geoContains w x pt)"
  then have "find (\<lambda>x. geoContains w x pt) (features w) = Some f"
    by (intro find_first_match [where ys = before and zs = after]) simp_all
  with assms show "snd (handleMouseUp w e g) = Some f"
    by (simp add: handleMouseUp_def hit_test_def)
  then show "snd (pointer_up w e (g, a)) = selection_step (Click f) a"
    by (cases "handleMouseUp w e g") (simp add: pointer_up_def)
next
  assume h: "\<forall>x \<in> set (features w). \<not> geoContains w x pt"
  then have "find (\<lambda>x. geoContains w x pt) (features w) = None"
    by (rule find_no_match)
  with assms show "snd (handleMouseUp w e g) = None"
    by (simp add: handleMouseUp_def hit_test_def)
  then show "snd (pointer_up w e (g, a)) = a"
    by (cases "handleMouseUp w e g") (simp add: pointer_up_def)
qed

theorem hit_test_first_match_or_nothing_witness:
  "geoContains small_world land_A (62, 61) \<and> geoContains small_world land_B (62, 61)
   \<and> snd (handleMouseUp small_world (62, 61) (handleMouseDown (60, 60) initialGlobeState))
       = Some land_A
   \<and> snd (pointer_up small_world (62, 61)
         (handleMouseDown (60, 60) initialGlobeState, initialAppState []))
       = selection_step (Click land_A) (initialAppState [])
   \<and> \<not> geoContains small_world land_A (250, 250)
   \<and> \<not> geoContains small_world land_B (250, 250)
   \<and> \<not> geoContains small_world land_C (250, 250)
   \<and> snd (handleMouseUp small_world (250, 250) (handleMouseDown (250, 250) initialGlobeState))
       = None
   \<and> snd (pointer_up small_world (250, 250)
         (handleMouseDown (250, 250) initialGlobeState, initialAppState []))
       = initialAppState []"
proof -
  let ?g = "handleMouseDown (60, 60) initialGlobeState"
  let ?g' = "handleMouseDown (250, 250) initialGlobeState"
  have drag: "isDragging ?g" "isDragging ?g'"
    by (simp_all add: handleMouseDown_def)
  have near: "pixel_dist (62, 61) (startDrag ?g) < 15" "pixel_dist (250, 250) (startDrag ?g') < 15"
    by (simp_all add: pixel_dist_lt_15 handleMouseDown_def)
  have inv: "invert small_world (projRotation ?g) (canvas_point (canvas small_world) (62, 61))
               = Some (62, 61)"
    by (simp add: small_world_def canvas_point_def)
  have inv': "invert small_world (projRotation ?g') (canvas_point (canvas small_world) (250, 250))
               = Some (250, 250)"
    by (simp add: small_world_def canvas_point_def)
  have both: "geoContains small_world land_A (62, 61)" "geoContains small_world land_B (62, 61)"
    by (simp_all add: small_world_def box_contains_def land_A_def land_B_def)
  have order: "features small_world = [] @ land_A # [land_B, land_C]"
    by (simp add: small_world_def)
  have miss: "\<forall>x \<in> set (features small_world). \<not> geoContains small_world x (250, 250)"
    by (simp add: small_world_def box_contains_def land_A_def land_B_def land_C_def)
  from hit_test_first_match_or_nothing [OF drag(1) near(1) inv,
      where before = "[]" and f = land_A and after = "[land_B, land_C]"
        and a = "initialAppState []"] order both
  have first: "snd (handleMouseUp small_world (62, 61) ?g) = Some land_A"
      "snd (pointer_up small_world (62, 61) (?g, initialAppState []))
         = selection_step (Click land_A) (initialAppState [])"
    by simp_all
  from hit_test_first_match_or_nothing [OF drag(2) near(2) inv',
      where a = "initialAppState []"] miss
  have none: "snd (handleMouseUp small_world (250, 250) ?g') = None"
      "snd (pointer_up small_world (250, 250) (?g', initialAppState [])) = initialAppState []"
    by blast+
  from miss have "\<not> geoContains small_world land_A (250, 250)"
      "\<not> geoContains small_world land_B (250, 250)"
      "\<not> geoContains small_world land_C (250, 250)"
    by (simp_all add: small_world_def)
  with both first none show ?thesis by blast
qed

section \<open>Simulation layer: proofs\<close>

text \<open>
  C5. In a frame with an aggressor, a defender and the simulation running, the path list
  has one entry more than there are allies: the aggression path from the aggressor's
  centroid to the defender's centroid first, then, ally by ally in list order, a
  counter-attack path from the ally's centroid to the aggressor's centroid.
\<close>

theorem conflict_paths_one_plus_allies:
  assumes "aggressor ws = Some agg" and "defender ws = Some dfd" and "sim"
  shows "\<exists>ps. conflict_paths w ws sim = Some ps
           \<and> length ps = 1 + length (defenderAllies ws)
           \<and> ps ! 0 = \<lparr>path_start = geoCentroid w agg, path_end = geoCentroid w dfd,
                        path_color = ''#f97316'', path_type = AGGRESSION\<rparr>
           \<and> (\<forall>i < length (defenderAllies ws).
                 ps ! (1 + i) = \<lparr>path_start = geoCentroid w (defenderAllies ws ! i),
                                 path_end = geoCentroid w agg,
                                 path_color = ''#22d3ee'', path_type = COUNTER_ATTACK\<rparr>)"
  using assms by (simp add: conflict_paths_def Let_def)

lemma two_element_list: "length ps = 2 \<Longrightarrow> ps = [ps ! 0, ps ! 1]"
  by (cases ps; cases "tl ps") auto

theorem conflict_paths_one_plus_allies_witness:
  "conflict_paths small_world
      \<lparr>aggressor = Some land_A, defender = Some land_B, defenderAllies = [land_C]\<rparr> True
    = Some [\<lparr>path_start = (50, 50), path_end = (125, 125),
              path_color = ''#f97316'', path_type = AGGRESSION\<rparr>,
            \<lparr>path_start = (350, 350), path_end = (50, 50),
              path_color = ''#22d3ee'', path_type = COUNTER_ATTACK\<rparr>]"
proof -
  let ?ws = "\<lparr>aggressor = Some land_A, defender = Some land_B, defenderAllies = [land_C]\<rparr>"
  have a: "aggressor ?ws = Some land_A" and d: "defender ?ws = Some land_B" by simp_all
  have cA: "geoCentroid small_world land_A = (50, 50)"
    and cB: "geoCentroid small_world land_B = (125, 125)"
    and cC: "geoCentroid small_world land_C = (350, 350)"
    by (simp_all add: small_world_def box_centroid_def land_A_def land_B_def land_C_def)
  from conflict_paths_one_plus_allies [OF a d TrueI, of small_world]
  obtain ps where ps: "conflict_paths small_world ?ws True = Some ps"
    "length ps = 1 + length (defenderAllies ?ws)"
    "ps ! 0 = \<lparr>path_start = geoCentroid small_world land_A,
               path_end = geoCentroid small_world land_B,
               path_color = ''#f97316'', path_type = AGGRESSION\<rparr>"
    "\<forall>i < length (defenderAllies ?ws).
        ps ! (1 + i) = \<lparr>path_start = geoCentroid small_world (defenderAllies ?ws ! i),
                        path_end = geoCentroid small_world land_A,
                        path_color = ''#22d3ee'', path_type = COUNTER_ATTACK\<rparr>"
    by blast
  from ps(4) have one: "ps ! 1 = \<lparr>path_start = geoCentroid small_world land_C,
               path_end = geoCentroid small_world land_A,
               path_color = ''#22d3ee'', path_type = COUNTER_ATTACK\<rparr>"
    by simp
  from ps(2) have "ps = [ps ! 0, ps ! 1]" by (intro two_element_list) simp
  with ps(1,3) one cA cB cC show ?thesis by simp
qed

lemma js_fmod_nonneg:
  assumes "0 \<le> x"
  shows "0 \<le> js_fmod x (3 / 2) \<and> js_fmod x (3 / 2) < 3 / 2
         \<and> x = js_fmod x (3 / 2) + (3 / 2) * of_int \<lfloor>x / (3 / 2)\<rfloor>
         \<and> 0 \<le> \<lfloor>x / (3 / 2)\<rfloor>"
proof -
  define z where "z = x / (3 / 2)"
  define q where "q = \<lfloor>z\<rfloor>"
  from assms have nn: "0 \<le> z" by (simp add: z_def)
  then have tr: "trunc z = q" by (simp add: trunc_def q_def)
  have xz: "x = (3 / 2) * z" by (simp add: z_def)
  have lo: "of_int q \<le> z" and hi: "z < of_int q + 1"
    unfolding q_def by linarith+
  have f: "js_fmod x (3 / 2) = x - (3 / 2) * of_int q"
    unfolding js_fmod_def z_def [symmetric] tr ..
  from nn have q0: "0 \<le> q" by (simp add: q_def)
  from lo hi xz f q0 show ?thesis
    unfolding z_def [symmetric] q_def [symmetric] by simp
qed

lemma advance_fields:
  "speed (advance_missile dt m) = speed m" "offset (advance_missile dt m) = offset m"
  "m_t (advance_missile dt m) = m_t m + speed m * dt"
  by (simp_all add: advance_missile_def)

lemma render_missiles_fst: "map fst (render_missiles dt n ms) = map (advance_missile dt) ms"
proof -
  have "map fst (render_missiles dt n ms) = map (advance_missile dt \<circ> snd) (enumerate 0 ms)"
    by (simp add: render_missiles_def missile_frame_def Let_def case_prod_unfold comp_def)
  also have "\<dots> = map (advance_missile dt) (map snd (enumerate 0 ms))"
    by (simp only: map_map)
  also have "\<dots> = map (advance_missile dt) ms"
    by (simp only: map_snd_enumerate)
  finally show ?thesis .
qed

lemma particle_loop_filter:
  "i \<le> length ps \<Longrightarrow>
   particle_loop r dt i ps
     = filter (\<lambda>p. \<not> life p \<le> 0) (map (decay_particle r dt) (take i ps)) @ drop i ps"
proof (induction i arbitrary: ps)
  case 0
  then show ?case by simp
next
  case (Suc i)
  then have lt: "i < length ps" by simp
  have tk: "take (Suc i) ps = take i ps @ [ps ! i]"
    using lt by (simp add: take_Suc_conv_app_nth)
  show ?case
  proof (cases "life (decay_particle r dt (ps ! i)) \<le> 0")
    case True
    have len: "i \<le> length (take i ps @ drop (Suc i) ps)" using lt by simp
    from Suc.IH [OF len] True lt show ?thesis
      by (simp add: tk Let_def)
  next
    case False
    have len: "i \<le> length (ps[i := decay_particle r dt (ps ! i)])" using lt by simp
    from Suc.IH [OF len] False lt show ?thesis
      by (simp add: tk Let_def drop_update_cancel upd_conv_take_nth_drop Cons_nth_drop_Suc)
  qed
qed


lemma missiles_after_map:
  "missiles_after dts n ms = map (\<lambda>m. m\<lparr>m_t := m_t m + speed m * sum_list dts\<rparr>) ms"
proof (induction dts arbitrary: ms)
  case Nil
  then show ?case by (simp add: missiles_after_def)
next
  case (Cons dt dts)
  have "missiles_after (dt # dts) n ms = missiles_after dts n (map (advance_missile dt) ms)"
    by (simp add: missiles_after_def render_missiles_fst)
  also have "\<dots> = map (\<lambda>m. m\<lparr>m_t := m_t m + speed m * sum_list dts\<rparr>)
                       (map (advance_missile dt) ms)"
    by (rule Cons.IH)
  finally show ?case
    by (simp add: advance_missile_def algebra_simps)
qed

lemma render_particles_filter:
  "render_particles r dt ps = filter (\<lambda>p. 0 < life p) (map (decay_particle r dt) ps)"
  by (simp add: render_particles_def particle_loop_filter not_le)


text \<open>
  C3, as stated, fails: the stored progress \<^verbatim>\<open>m.t\<close> is never reduced. A missile created
  with \<^verbatim>\<open>t = 0.9\<close>, speed 0.3 and offset 0.5 has \<^verbatim>\<open>t = 1.53\<close> after 21 frames of 0.1 s,
  outside [0, 1.5).
\<close>

theorem stored_progress_exceeds_cycle:
  "m_t (missiles_after (replicate 21 (1 / 10)) 1 (initMissiles steady_draws) ! 0)
     = 153 / 100
   \<and> \<not> (m_t (missiles_after (replicate 21 (1 / 10)) 1
                (initMissiles steady_draws) ! 0) < 3 / 2)"
  by (simp add: missiles_after_map initMissiles_def steady_draws_def sum_list_replicate)

text \<open>
  C3, as the code has it. Over any run of frames with non-negative time steps the stored
  progress of a missile only accumulates \<open>speed * dt\<close>; the value that wraps is the
  per-frame \<^verbatim>\<open>cycleT = (m.t + m.offset) % 1.5\<close>, which lies in [0, 1.5) and differs from
  \<open>t + offset\<close> by a whole number of periods of 1.5.
\<close>

theorem cycle_value_wraps:
  assumes "i < length ms"
    and "0 \<le> m_t (ms ! i) + offset (ms ! i)"
    and "0 \<le> speed (ms ! i)"
    and "\<forall>dt \<in> set dts. 0 \<le> dt"
  shows "m_t (missiles_after dts n ms ! i) = m_t (ms ! i) + speed (ms ! i) * sum_list dts
         \<and> 0 \<le> cycleT (missiles_after dts n ms ! i)
         \<and> cycleT (missiles_after dts n ms ! i) < 3 / 2
         \<and> (\<exists>k::nat. m_t (missiles_after dts n ms ! i) + offset (missiles_after dts n ms ! i)
                = cycleT (missiles_after dts n ms ! i) + (3 / 2) * of_nat k)"
proof -
  let ?m = "missiles_after dts n ms ! i"
  from assms(1) have t: "m_t ?m = m_t (ms ! i) + speed (ms ! i) * sum_list dts"
    and off: "offset ?m = offset (ms ! i)"
    by (simp_all add: missiles_after_map)
  from assms(4) have "0 \<le> sum_list dts" by (simp add: sum_list_nonneg)
  with assms(3) have "0 \<le> speed (ms ! i) * sum_list dts" by simp
  with assms(2) t off have nn: "0 \<le> m_t ?m + offset ?m" by simp
  from js_fmod_nonneg [OF nn]
  have lo: "0 \<le> cycleT ?m" and hi: "cycleT ?m < 3 / 2"
    and eq: "m_t ?m + offset ?m
               = cycleT ?m + (3 / 2) * of_int \<lfloor>(m_t ?m + offset ?m) / (3 / 2)\<rfloor>"
    and q: "0 \<le> \<lfloor>(m_t ?m + offset ?m) / (3 / 2)\<rfloor>"
    by (simp_all add: cycleT_def)
  from q have "real_of_int \<lfloor>(m_t ?m + offset ?m) / (3 / 2)\<rfloor>
                 = of_nat (nat \<lfloor>(m_t ?m + offset ?m) / (3 / 2)\<rfloor>)"
    by simp
  with eq have "\<exists>k::nat. m_t ?m + offset ?m = cycleT ?m + (3 / 2) * of_nat k"
    by metis
  with t lo hi show ?thesis by blast
qed

theorem cycle_value_wraps_witness:
  "m_t (missiles_after (replicate 21 (1 / 10)) 1 (initMissiles steady_draws) ! 3)
     = 9 / 10 + 3 / 10 * sum_list (replicate 21 (1 / 10))
   \<and> 0 \<le> cycleT (missiles_after (replicate 21 (1 / 10)) 1
                 (initMissiles steady_draws) ! 3)
   \<and> cycleT (missiles_after (replicate 21 (1 / 10)) 1
                 (initMissiles steady_draws) ! 3) < 3 / 2"
proof -
  let ?ms = "initMissiles steady_draws"
  have len: "3 < length ?ms" by (simp add: initMissiles_def)
  have m: "m_t (?ms ! 3) = 9 / 10" "speed (?ms ! 3) = 3 / 10" "offset (?ms ! 3) = 1 / 2"
    by (simp_all add: initMissiles_def steady_draws_def)
  have h2: "0 \<le> m_t (?ms ! 3) + offset (?ms ! 3)" and h3: "0 \<le> speed (?ms ! 3)"
    by (simp_all add: m)
  have h4: "\<forall>dt \<in> set (replicate 21 (1 / 10 :: real)). 0 \<le> dt" by simp
  from cycle_value_wraps [OF len h2 h3 h4, of 1] m show ?thesis by simp
qed

lemma decay_life: "life ((decay_particle r dt ^^ k) p) = life p - of_nat k * (dt * r)"
  by (induction k) (simp_all add: decay_particle_def algebra_simps)

lemma particles_after_Suc:
  "particles_after r dt (Suc k) ps = render_particles r dt (particles_after r dt k ps)"
  by (simp add: particles_after_def)

lemma particles_after_append:
  "particles_after r dt k (ps @ qs) = particles_after r dt k ps @ particles_after r dt k qs"
proof (induction k)
  case 0
  show ?case by (simp add: particles_after_def)
next
  case (Suc k)
  then show ?case by (simp add: particles_after_Suc render_particles_filter)
qed

lemma particles_after_single:
  assumes "0 < r * dt" "0 < life p"
  shows "particles_after r dt k [p]
           = (if 0 < life p - of_nat k * (dt * r) then [(decay_particle r dt ^^ k) p] else [])"
proof (induction k)
  case 0
  with assms show ?case by (simp add: particles_after_def)
next
  case (Suc k)
  have step: "life p - of_nat (Suc k) * (dt * r) < life p - of_nat k * (dt * r)"
    using assms(1) by (simp add: algebra_simps)
  show ?case
  proof (cases "0 < life p - of_nat k * (dt * r)")
    case True
    with Suc have "particles_after r dt (Suc k) [p]
        = render_particles r dt [(decay_particle r dt ^^ k) p]"
      by (simp add: particles_after_Suc)
    also have "\<dots> = (if 0 < life ((decay_particle r dt ^^ Suc k) p)
                        then [(decay_particle r dt ^^ Suc k) p] else [])"
      by (simp add: render_particles_filter)
    finally show ?thesis by (simp only: decay_life)
  next
    case False
    with step have "\<not> 0 < life p - of_nat (Suc k) * (dt * r)" by linarith
    with False Suc show ?thesis
      by (simp add: particles_after_Suc render_particles_filter)
  qed
qed

lemma dead_after:
  assumes "0 < r" "0 < dt"
  shows "1 - of_nat k * (dt * r) \<le> 0 \<longleftrightarrow> nat \<lceil>1 / (r * dt)\<rceil> \<le> k"
proof -
  from assms have pos: "0 < r * dt" by simp
  have "1 - of_nat k * (dt * r) \<le> 0 \<longleftrightarrow> 1 \<le> of_nat k * (r * dt)"
    by (simp add: algebra_simps)
  also have "\<dots> \<longleftrightarrow> 1 / (r * dt) \<le> of_nat k"
    using pos by (simp add: pos_divide_le_eq)
  also have "\<dots> \<longleftrightarrow> \<lceil>1 / (r * dt)\<rceil> \<le> int k"
    by (simp add: ceiling_le_iff)
  also have "\<dots> \<longleftrightarrow> nat \<lceil>1 / (r * dt)\<rceil> \<le> k"
    by linarith
  finally show ?thesis .
qed

text \<open>
  C6. A particle with life 1, decay rate \<open>r\<close> and fixed step \<open>dt\<close> (both positive) has
  life \<open>\<le> 0\<close> after \<open>k\<close> frames exactly when \<open>k\<close> is at least \<open>\<lceil>1 / (r * dt)\<rceil>\<close>.
  Up to the frame before, it is in the list (updated, at its place among the others);
  from that frame on the list is what the other particles alone give.
\<close>

theorem particle_lifecycle:
  assumes "0 < r" and "0 < dt" and "life p = 1"
  shows "(life ((decay_particle r dt ^^ k) p) \<le> 0 \<longleftrightarrow> nat \<lceil>1 / (r * dt)\<rceil> \<le> k)
         \<and> (k < nat \<lceil>1 / (r * dt)\<rceil> \<longrightarrow>
              particles_after r dt k (before @ p # after)
                = particles_after r dt k before @ (decay_particle r dt ^^ k) p
                    # particles_after r dt k after)
         \<and> (nat \<lceil>1 / (r * dt)\<rceil> \<le> k \<longrightarrow>
              particles_after r dt k (before @ p # after)
                = particles_after r dt k before @ particles_after r dt k after)"
proof -
  from assms have pos: "0 < r * dt" by simp
  have split: "particles_after r dt k (before @ p # after)
      = particles_after r dt k before @ particles_after r dt k [p] @ particles_after r dt k after"
    using particles_after_append [of r dt k before "[p] @ after"]
      particles_after_append [of r dt k "[p]" after] by simp
  have single: "particles_after r dt k [p]
      = (if nat \<lceil>1 / (r * dt)\<rceil> \<le> k then [] else [(decay_particle r dt ^^ k) p])"
    using particles_after_single [OF pos, of p k] dead_after [OF assms(1,2), of k] assms(3)
    by (simp add: not_le [symmetric])
  have dead: "life ((decay_particle r dt ^^ k) p) \<le> 0 \<longleftrightarrow> nat \<lceil>1 / (r * dt)\<rceil> \<le> k"
    using dead_after [OF assms(1,2), of k] assms(3) by (simp add: decay_life)
  from split single dead show ?thesis by (simp add: not_less)
qed


lemma particles_after_Nil: "particles_after r dt k [] = []"
  by (induction k) (simp_all add: particles_after_def render_particles_def)

theorem particle_lifecycle_witness:
  "nat \<lceil>1 / (decay_rate * (1 / 10))\<rceil> = 7
   \<and> \<not> life ((decay_particle decay_rate (1 / 10) ^^ 6)
             (new_particle (400, 300) (10, - 10) 5 ''#f97316'')) \<le> 0
   \<and> life ((decay_particle decay_rate (1 / 10) ^^ 7)
             (new_particle (400, 300) (10, - 10) 5 ''#f97316'')) \<le> 0
   \<and> particles_after decay_rate (1 / 10) 6 [new_particle (400, 300) (10, - 10) 5 ''#f97316'']
       = [(decay_particle decay_rate (1 / 10) ^^ 6)
            (new_particle (400, 300) (10, - 10) 5 ''#f97316'')]
   \<and> particles_after decay_rate (1 / 10) 7 [new_particle (400, 300) (10, - 10) 5 ''#f97316'']
       = []"
proof -
  let ?p = "new_particle (400, 300) (10, - 10) 5 ''#f97316''"
  have r: "0 < decay_rate" and dt: "(0 :: real) < 1 / 10" and l: "life ?p = 1"
    by (simp_all add: decay_rate_def new_particle_def)
  have n: "nat \<lceil>1 / (decay_rate * (1 / 10))\<rceil> = 7"
    by (simp add: decay_rate_def)
  have six: "\<not> life ((decay_particle decay_rate (1 / 10) ^^ 6) ?p) \<le> 0"
    "particles_after decay_rate (1 / 10) 6 [?p] = [(decay_particle decay_rate (1 / 10) ^^ 6) ?p]"
    using particle_lifecycle [OF r dt l, of 6 "[]" "[]"] unfolding n
    by (simp_all add: particles_after_Nil)
  have seven: "life ((decay_particle decay_rate (1 / 10) ^^ 7) ?p) \<le> 0"
    "particles_after decay_rate (1 / 10) 7 [?p] = []"
    using particle_lifecycle [OF r dt l, of 7 "[]" "[]"] unfolding n
    by (simp_all add: particles_after_Nil)
  from n six seven show ?thesis by blast
qed

section \<open>Battle report fallback: proofs\<close>

subsection \<open>Rounding\<close>

lemma binade_eq:
  assumes "2 powi e \<le> a" and "a < 2 powi (e + 1)" and "- 1022 \<le> e" and "e \<le> 1023"
  shows "binade a = e"
proof -
  let ?S = "{e' \<in> {- 1022 .. 1023}. e' = - 1022 \<or> 2 powi e' \<le> a}"
  have fin: "finite ?S" by (rule finite_subset [of _ "{- 1022 .. 1023}"]) auto
  have mem: "e \<in> ?S" using assms by simp
  have ub: "y \<le> e" if y: "y \<in> ?S" for y
  proof (rule ccontr)
    assume n: "\<not> y \<le> e"
    then have "e + 1 \<le> y" by simp
    then have "(2::real) powi (e + 1) \<le> 2 powi y"
      by (intro power_int_increasing) simp_all
    moreover from y n assms(3) have "2 powi y \<le> a" by auto
    ultimately show False using assms(2) by linarith
  qed
  show ?thesis unfolding binade_def by (rule Max_eqI [OF fin ub mem])
qed

lemma binade_0: "binade 0 = - 1022"
proof -
  let ?S = "{e' \<in> {- 1022 .. 1023}. e' = - 1022 \<or> 2 powi e' \<le> (0::real)}"
  have fin: "finite ?S" by (rule finite_subset [of _ "{- 1022 .. 1023}"]) auto
  have mem: "- 1022 \<in> ?S" by simp
  have ub: "y \<le> - 1022" if y: "y \<in> ?S" for y
  proof -
    have "\<not> 2 powi y \<le> (0::real)" by (simp add: not_le)
    with y show ?thesis by auto
  qed
  show ?thesis unfolding binade_def by (rule Max_eqI [OF fin ub mem])
qed

lemma round_half_even_int: "round_half_even (of_int m) = m"
  by (simp add: round_half_even_def)

lemma fl_0: "fl 0 = 0"
  by (simp add: fl_def binade_0 round_half_even_def)

lemma fl_at:
  assumes "2 powi e \<le> \<bar>x\<bar>" and "\<bar>x\<bar> < 2 powi (e + 1)" and "- 1022 \<le> e" and "e \<le> 1023"
  shows "fl x = of_int (round_half_even (x / 2 powi (e - 52))) * 2 powi (e - 52)"
  by (simp add: fl_def Let_def binade_eq [OF assms])

lemma fl_exact:
  assumes "2 powi e \<le> \<bar>x\<bar>" and "\<bar>x\<bar> < 2 powi (e + 1)" and "- 1022 \<le> e" and "e \<le> 1023"
    and "x = of_int m * 2 powi (e - 52)"
  shows "fl x = x"
proof -
  have "x / 2 powi (e - 52) = of_int m"
    using assms(5) by simp
  then have "round_half_even (x / 2 powi (e - 52)) = m"
    by (simp only: round_half_even_int)
  with fl_at [OF assms(1-4)] assms(5) show ?thesis by simp
qed

lemma fl_20: "fl 20 = 20"
  by (rule fl_exact [of 4 20 "20 * 2 ^ 48"]) simp_all


lemma fl_55: "fl 55 = 55"
  by (rule fl_exact [of 5 55 "55 * 2 ^ 47"]) simp_all

lemma fl_75: "fl 75 = 75"
  by (rule fl_exact [of 6 75 "75 * 2 ^ 46"]) simp_all

lemma fl_337: "fl 337 = 337"
  by (rule fl_exact [of 8 337 "337 * 2 ^ 44"]) simp_all

lemma fl_460: "fl 460 = 460"
  by (rule fl_exact [of 8 460 "460 * 2 ^ 44"]) simp_all

lemma fl_7_8: "fl (7 / 8) = 7 / 8"
  by (rule fl_exact [of "- 1" "7 / 8" "7 * 2 ^ 50"]) simp_all

lemma fl_3_4: "fl (3 / 4) = 3 / 4"
  by (rule fl_exact [of "- 1" "3 / 4" "3 * 2 ^ 51"]) simp_all

lemma fl_5_8: "fl (5 / 8) = 5 / 8"
  by (rule fl_exact [of "- 1" "5 / 8" "5 * 2 ^ 50"]) simp_all

lemma fl_445_8: "fl (445 / 8) = 445 / 8"
  by (rule fl_exact [of 5 "445 / 8" "445 * 2 ^ 44"]) simp_all

lemma fl_tenth: "fl (1 / 10) = 3602879701896397 / 36028797018963968"
proof -
  have "fl (1 / 10) = of_int (round_half_even ((1 / 10) / 2 powi (- 4 - 52))) * 2 powi (- 4 - 52)"
    by (rule fl_at) simp_all
  also have "round_half_even ((1 / 10) / 2 powi (- 4 - 52)) = 7205759403792794"
    by (simp add: round_half_even_def Let_def)
  finally show ?thesis by simp
qed

lemma fl_163_337: "fl (163 / 337) = 8713195718236093 / 18014398509481984"
proof -
  have "fl (163 / 337)
          = of_int (round_half_even ((163 / 337) / 2 powi (- 2 - 52))) * 2 powi (- 2 - 52)"
    by (rule fl_at) simp_all
  also have "round_half_even ((163 / 337) / 2 powi (- 2 - 52)) = 8713195718236093"
    by (simp add: round_half_even_def Let_def)
  finally show ?thesis by simp
qed

lemma fl_3_5: "fl (3 / 5) = 5404319552844595 / 9007199254740992"
proof -
  have "fl (3 / 5) = of_int (round_half_even ((3 / 5) / 2 powi (- 1 - 52))) * 2 powi (- 1 - 52)"
    by (rule fl_at) simp_all
  also have "round_half_even ((3 / 5) / 2 powi (- 1 - 52)) = 5404319552844595"
    by (simp add: round_half_even_def Let_def)
  finally show ?thesis by simp
qed


subsection \<open>The template\<close>

lemma trim_template:
  assumes "b \<noteq> []" and "\<not> is_js_space (hd b)" and "\<not> is_js_space (last b)"
  shows "trim (nl @ b @ nl @ ''  '') = b"
proof -
  have sp: "is_js_space (CHR 0x0A)" "is_js_space (CHR 0x20)"
    by (simp_all add: is_js_space_def)
  from assms(1) obtain c cs where b: "b = c # cs" by (cases b) auto
  with assms(2) have front: "dropWhile is_js_space (nl @ b @ nl @ ''  '') = b @ nl @ ''  ''"
    using sp by (simp add: nl_def)
  from assms(1) have rb: "rev b = last b # rev (butlast b)"
    by (metis append_butlast_last_id rev.simps(2) rev_append rev_rev_ident rev_singleton_conv
          append_Cons append_Nil)
  have "dropWhile is_js_space (last b # rev (butlast b)) = last b # rev (butlast b)"
    using assms(3) by simp
  then have dw: "dropWhile is_js_space (rev b) = rev b"
    by (simp only: rb [symmetric])
  have "rev (b @ nl @ ''  '') = ''  '' @ nl @ rev b"
    by (simp add: nl_def)
  then have "dropWhile is_js_space (rev (b @ nl @ ''  '')) = rev b"
    using sp dw by (simp add: nl_def)
  with front show ?thesis by (simp add: trim_def)
qed

lemma report_body_ends:
  "report_body a b al cm w l ev bt p \<noteq> []"
  "hd (report_body a b al cm w l ev bt p) = CHR ''*''"
  "last (report_body a b al cm w l ev bt p) = CHR ''.''"
  by (simp_all add: report_body_def nl_def)

lemma report_is_body:
  "report a b al cm w l ev bt p = report_body a b al cm w l ev bt p"
  unfolding report_def
  by (rule trim_template) (simp_all add: report_body_ends is_js_space_def)



subsection \<open>The report\<close>

text \<open>
  C4, as the code has it. The fallback text is a function of the arguments and of the
  four random draws, and of the draws only through: whether the first is below the
  aggressor's chance, the event index, the battle-type index and the confidence figure,
  each as the double arithmetic computes it. Two calls with the same arguments whose
  draws agree on these four give the same text.
\<close>

theorem fallback_determined_by_draws:
  assumes "(randomFactor d < chanceA countryA countryB allies)
             = (randomFactor d' < chanceA countryA countryB allies)"
    and "randomIndex (eventDraw d) 7 = randomIndex (eventDraw d') 7"
    and "randomIndex (battleDraw d) 6 = randomIndex (battleDraw d') 6"
    and "confidence (confidenceDraw d) = confidence (confidenceDraw d')"
  shows "generateMockWarLog d countryA countryB allies
           = generateMockWarLog d' countryA countryB allies
         \<and> simulateWarScenario None d countryA countryB allies
           = simulateWarScenario None d' countryA countryB allies"
proof -
  have len: "length EXTERNAL_EVENTS = 7" "length BATTLE_TYPES = 6"
    by (simp_all add: EXTERNAL_EVENTS_def BATTLE_TYPES_def)
  from assms have "generateMockWarLog d countryA countryB allies
           = generateMockWarLog d' countryA countryB allies"
    unfolding generateMockWarLog_def Let_def len by simp
  then show ?thesis by (simp add: simulateWarScenario_def)
qed

lemma scores: "getPowerScore ''Aland'' = 163" "getPowerScore ''Bland'' = 174"
  "getPowerScore ''Russia'' = 276" "getPowerScore ''Tajikistan'' = 184"
  by (simp_all add: getPowerScore_def js_rem_def js_sar_def)

lemma chance_Aland_Bland:
  "chanceA ''Aland'' ''Bland'' [] = 8713195718236093 / 18014398509481984"
  by (simp add: chanceA_def alliesScore_def scores fl_337 fl_163_337)

lemma close_Aland_Bland: "closeMatch (8713195718236093 / 18014398509481984)"
proof -
  have "fl (- (294003536504899 / 18014398509481984))
          = - (294003536504899 / 18014398509481984)"
    by (rule fl_exact [of "- 6" _ "- (294003536504899 * 16)"]) simp_all
  then show ?thesis by (simp add: closeMatch_def fl_tenth)
qed

lemma index_0: "randomIndex 0 n = 0"
  by (simp add: randomIndex_def fl_0)

lemma confidence_values: "confidence 0 = 55" "confidence (1 / 2) = 75" "confidence (1 / 64) = 55"
  by (simp_all add: confidence_def fl_0 fl_20 fl_55 fl_75 fl_5_8 fl_445_8)

lemma log_Aland_Bland:
  assumes "randomFactor d = 0" "eventDraw d = 0" "battleDraw d = 0"
  shows "generateMockWarLog d ''Aland'' ''Bland'' []
     = report_body ''Aland'' ''Bland'' [] True ''Aland'' ''Bland''
         ''Neighboring nations impose a strict trade embargo, stifling supply lines.''
         ''Orbital Bombardment'' (confidence (confidenceDraw d))"
  using assms
  by (simp add: generateMockWarLog_def chance_Aland_Bland close_Aland_Bland index_0 Let_def
        EXTERNAL_EVENTS_def BATTLE_TYPES_def report_is_body)

lemma digits_55_75: "show_int 55 = ''55''" "show_int 75 = ''75''"
  by (simp_all add: show_int_def digits.simps)

text \<open>
  C4, as stated, fails: the same arguments with a different fourth draw give reports
  that differ (confidence 55% against 75%).
\<close>

theorem fallback_depends_on_draws:
  "generateMockWarLog \<lparr>randomFactor = 0, eventDraw = 0, battleDraw = 0, confidenceDraw = 0\<rparr>
       ''Aland'' ''Bland'' []
   \<noteq> generateMockWarLog
       \<lparr>randomFactor = 0, eventDraw = 0, battleDraw = 0, confidenceDraw = 1 / 2\<rparr>
       ''Aland'' ''Bland'' []"
  by (simp add: log_Aland_Bland confidence_values report_body_def digits_55_75)

theorem fallback_determined_by_draws_witness:
  "(0 < chanceA ''Aland'' ''Bland'' []) = (1 / 4 < chanceA ''Aland'' ''Bland'' [])
   \<and> randomIndex 0 7 = randomIndex (1 / 8) 7
   \<and> randomIndex 0 6 = randomIndex (1 / 8) 6
   \<and> confidence 0 = confidence (1 / 64)
   \<and> generateMockWarLog
        \<lparr>randomFactor = 0, eventDraw = 0, battleDraw = 0, confidenceDraw = 0\<rparr>
        ''Aland'' ''Bland'' []
     = generateMockWarLog
        \<lparr>randomFactor = 1 / 4, eventDraw = 1 / 8, battleDraw = 1 / 8,
         confidenceDraw = 1 / 64\<rparr> ''Aland'' ''Bland'' []
   \<and> simulateWarScenario None
        \<lparr>randomFactor = 0, eventDraw = 0, battleDraw = 0, confidenceDraw = 0\<rparr>
        ''Aland'' ''Bland'' []
     = simulateWarScenario None
        \<lparr>randomFactor = 1 / 4, eventDraw = 1 / 8, battleDraw = 1 / 8,
         confidenceDraw = 1 / 64\<rparr> ''Aland'' ''Bland'' []"
proof -
  let ?d = "\<lparr>randomFactor = 0, eventDraw = 0, battleDraw = 0, confidenceDraw = 0\<rparr>"
  let ?d' = "\<lparr>randomFactor = 1 / 4, eventDraw = 1 / 8, battleDraw = 1 / 8,
              confidenceDraw = 1 / 64\<rparr>"
  have c: "(0 < chanceA ''Aland'' ''Bland'' []) = (1 / 4 < chanceA ''Aland'' ''Bland'' [])"
    by (simp add: chance_Aland_Bland)
  have e: "randomIndex 0 7 = randomIndex (1 / 8) 7"
    by (simp add: randomIndex_def fl_0 fl_7_8)
  have b: "randomIndex 0 6 = randomIndex (1 / 8) 6"
    by (simp add: randomIndex_def fl_0 fl_3_4)
  have w: "confidence 0 = confidence (1 / 64)"
    by (simp add: confidence_values)
  have h1: "(randomFactor ?d < chanceA ''Aland'' ''Bland'' [])
              = (randomFactor ?d' < chanceA ''Aland'' ''Bland'' [])"
    using c by simp
  have h2: "randomIndex (eventDraw ?d) 7 = randomIndex (eventDraw ?d') 7"
    using e by simp
  have h3: "randomIndex (battleDraw ?d) 6 = randomIndex (battleDraw ?d') 6"
    using b by simp
  have h4: "confidence (confidenceDraw ?d) = confidence (confidenceDraw ?d')"
    using w by simp
  from fallback_determined_by_draws [OF h1 h2 h3 h4] c e b w show ?thesis by blast
qed

subsection \<open>Where rounding decides\<close>

text \<open>
  Two inputs at which the double arithmetic and exact arithmetic part: Russia against
  Tajikistan has chance 276 / 460, whose double lies below 0.6, so the match counts as
  close; and a draw just below 1 / 40 brings the confidence to 56, by a tie rounded to
  the even significand.
\<close>

lemma close_match_rounds:
  "closeMatch (chanceA ''Russia'' ''Tajikistan'' [])
   \<and> \<not> \<bar>(276 / 460 :: real) - 1 / 2\<bar> < 1 / 10"
proof -
  have ch: "chanceA ''Russia'' ''Tajikistan'' [] = 5404319552844595 / 9007199254740992"
    by (simp add: chanceA_def alliesScore_def scores fl_460 fl_3_5)
  have "fl (900719925474099 / 9007199254740992) = 900719925474099 / 9007199254740992"
    by (rule fl_exact [of "- 4" _ "900719925474099 * 8"]) simp_all
  then have "closeMatch (5404319552844595 / 9007199254740992)"
    by (simp add: closeMatch_def fl_tenth)
  then have "closeMatch (chanceA ''Russia'' ''Tajikistan'' [])"
    by (simp only: ch)
  then show ?thesis by simp
qed

lemma confidence_rounds:
  "confidence (56294995342131 / 2 ^ 51) = 56
   \<and> \<lfloor>55 + (56294995342131 / 2 ^ 51) * 40 :: real\<rfloor> = 55"
proof -
  have prod: "fl (281474976710655 / 281474976710656) = 281474976710655 / 281474976710656"
    by (rule fl_exact [of "- 1" _ "281474976710655 * 32"]) simp_all
  have "fl (15762598695796735 / 281474976710656)
          = of_int (round_half_even ((15762598695796735 / 281474976710656) / 2 powi (5 - 52)))
            * 2 powi (5 - 52)"
    by (rule fl_at) simp_all
  also have "round_half_even ((15762598695796735 / 281474976710656) / 2 powi (5 - 52))
               = 7881299347898368"
    by (simp add: round_half_even_def Let_def)
  finally have sum: "fl (15762598695796735 / 281474976710656) = 56" by simp
  show ?thesis by (simp add: confidence_def prod sum)
qed

end
